theory Spec2Isabelle
  imports Main
begin

section \<open>Python strings\<close>

text \<open>
  A Python \<open>str\<close> is modelled as a \<open>string\<close>, one \<open>char\<close> per code point; the model
  therefore covers text whose code points are below 256.  The classifications below are
  Python's (\<open>str.isspace\<close>, the line boundaries of \<open>str.splitlines\<close>, the class \<open>\d\<close> of
  \<open>re\<close>) restricted to that range.
\<close>

definition py_isspace :: "char \<Rightarrow> bool" where
  "py_isspace c =
     (let n = (of_char c :: nat)
      in (9 \<le> n \<and> n \<le> 13) \<or> (28 \<le> n \<and> n \<le> 32) \<or> n = 133 \<or> n = 160)"

definition is_linebreak :: "char \<Rightarrow> bool" where
  "is_linebreak c =
     (let n = (of_char c :: nat)
      in (10 \<le> n \<and> n \<le> 13) \<or> (28 \<le> n \<and> n \<le> 30) \<or> n = 133)"

definition is_digit :: "char \<Rightarrow> bool" where
  "is_digit c = (let n = (of_char c :: nat) in 48 \<le> n \<and> n \<le> 57)"

definition digit_val :: "char \<Rightarrow> int" where
  "digit_val c = int (of_char c) - 48"

definition lstrip :: "string \<Rightarrow> string" where
  "lstrip s = dropWhile py_isspace s"

definition rstrip :: "string \<Rightarrow> string" where
  "rstrip s = rev (dropWhile py_isspace (rev s))"

definition strip :: "string \<Rightarrow> string" where
  "strip s = rstrip (lstrip s)"

definition startswith :: "string \<Rightarrow> string \<Rightarrow> bool" where
  "startswith s p = (take (length p) s = p)"

definition endswith :: "string \<Rightarrow> string \<Rightarrow> bool" where
  "endswith s p = (length p \<le> length s \<and> drop (length s - length p) s = p)"

definition removeprefix :: "string \<Rightarrow> string \<Rightarrow> string" where
  "removeprefix s p = (if startswith s p then drop (length p) s else s)"

text \<open>\<open>s.count(c)\<close> for a one-character \<open>c\<close>.\<close>

definition count_char :: "string \<Rightarrow> char \<Rightarrow> int" where
  "count_char s c = int (length (filter (\<lambda>x. x = c) s))"

text \<open>
  \<open>partition_at sep s\<close> cuts \<open>s\<close> at the leftmost occurrence of \<open>sep\<close>: it is
  \<open>s.split(sep, 1)\<close> when \<open>sep\<close> occurs, and \<open>None\<close> when \<open>sep not in s\<close>.
\<close>

fun partition_at :: "string \<Rightarrow> string \<Rightarrow> (string \<times> string) option" where
  "partition_at sep [] = (if sep = [] then Some ([], []) else None)"
| "partition_at sep (c # cs) =
     (if startswith (c # cs) sep then Some ([], drop (length sep) (c # cs))
      else (case partition_at sep cs of
              None \<Rightarrow> None
            | Some (a, b) \<Rightarrow> Some (c # a, b)))"

definition contains :: "string \<Rightarrow> string \<Rightarrow> bool" where
  "contains s sep = (partition_at sep s \<noteq> None)"

text \<open>
  \<open>s.split(sep)\<close> for a non-empty \<open>sep\<close>: cut at every occurrence, leftmost first,
  occurrences not overlapping.  \<open>skip\<close> counts the characters of a separator still to be
  passed over, \<open>cur\<close> is the current piece, reversed.
\<close>

fun split_aux :: "string \<Rightarrow> nat \<Rightarrow> string \<Rightarrow> string \<Rightarrow> string list" where
  "split_aux sep skip cur [] = [rev cur]"
| "split_aux sep skip cur (c # cs) =
     (if 0 < skip then split_aux sep (skip - 1) cur cs
      else if startswith (c # cs) sep then rev cur # split_aux sep (length sep - 1) [] cs
      else split_aux sep 0 (c # cur) cs)"

definition split_sep :: "string \<Rightarrow> string \<Rightarrow> string list" where
  "split_sep s sep = split_aux sep 0 [] s"

text \<open>\<open>s.split()\<close>: the maximal runs of non-whitespace characters.\<close>

fun split_ws_aux :: "string \<Rightarrow> string \<Rightarrow> string list" where
  "split_ws_aux cur [] = (if cur = [] then [] else [rev cur])"
| "split_ws_aux cur (c # cs) =
     (if py_isspace c then (if cur = [] then split_ws_aux [] cs else rev cur # split_ws_aux [] cs)
      else split_ws_aux (c # cur) cs)"

definition split_ws :: "string \<Rightarrow> string list" where
  "split_ws s = split_ws_aux [] s"

text \<open>
  \<open>s.split(None, 1)\<close>: leading whitespace is dropped, the first run of non-whitespace
  is the first piece, and what follows the whitespace after it, if anything, the second.
\<close>

definition split_ws1 :: "string \<Rightarrow> string list" where
  "split_ws1 s =
     (let t = lstrip s;
          a = takeWhile (\<lambda>c. \<not> py_isspace c) t;
          b = lstrip (dropWhile (\<lambda>c. \<not> py_isspace c) t)
      in if a = [] then [] else if b = [] then [a] else [a, b])"

text \<open>
  \<open>s.splitlines()\<close>: a line ends at a line boundary (\<open>\r\n\<close> counting as one) or at the
  end of the text; the boundaries are not kept, and no empty last line is produced.
\<close>

fun splitlines_aux :: "string \<Rightarrow> string \<Rightarrow> string list" where
  "splitlines_aux cur [] = (if cur = [] then [] else [rev cur])"
| "splitlines_aux cur [c] =
     (if is_linebreak c then [rev cur] else [rev (c # cur)])"
| "splitlines_aux cur (c # d # cs) =
     (if c = CHR 0x0D \<and> d = CHR 0x0A then rev cur # splitlines_aux [] cs
      else if is_linebreak c then rev cur # splitlines_aux [] (d # cs)
      else splitlines_aux (c # cur) (d # cs))"

definition splitlines :: "string \<Rightarrow> string list" where
  "splitlines s = splitlines_aux [] s"

text \<open>\<open>s.split("\n")\<close>.\<close>

definition split_nl :: "string \<Rightarrow> string list" where
  "split_nl s = split_sep s [CHR 0x0A]"

subsection \<open>Integers and text\<close>

definition digits_val :: "string \<Rightarrow> int" where
  "digits_val ds = foldl (\<lambda>acc c. 10 * acc + digit_val c) 0 ds"

text \<open>
  \<open>int(s)\<close> for a \<open>str\<close>: surrounding whitespace is ignored, one sign is allowed, and
  the digits may be grouped by single underscores.  \<open>None\<close> is Python's \<open>ValueError\<close>.
  The interpreter's limit on the length of the digit string is not modelled.
\<close>

fun int_body_ok :: "string \<Rightarrow> bool" where
  "int_body_ok [] = False"
| "int_body_ok [c] = is_digit c"
| "int_body_ok (c # d # cs) =
     (is_digit c \<and> (if d = CHR ''_'' then int_body_ok cs else int_body_ok (d # cs)))"

definition py_int :: "string \<Rightarrow> int option" where
  "py_int s =
     (let t = strip s;
          neg = startswith t ''-'';
          body = (if startswith t ''-'' \<or> startswith t ''+'' then drop 1 t else t)
      in if int_body_ok body
         then Some ((if neg then -1 else 1) * digits_val (filter is_digit body))
         else None)"

text \<open>\<open>str(n)\<close> for an \<open>int\<close>, as an f-string formats it.\<close>

fun nat_digits :: "nat \<Rightarrow> string" where
  "nat_digits n =
     (if n < 10 then [char_of (48 + n)] else nat_digits (n div 10) @ [char_of (48 + n mod 10)])"

definition py_str_int :: "int \<Rightarrow> string" where
  "py_str_int i = (if i < 0 then CHR ''-'' # nat_digits (nat (- i)) else nat_digits (nat i))"


section \<open>Data model (git.py)\<close>

datatype error = RuntimeError string | ValueError string | IndexError string

datatype GitFileChangeType = ADDED | DELETED | MODIFIED | RENAMED | COPIED

datatype GitDiffAlgorithm = MYERS | MINIMAL | PATIENCE | HISTOGRAM

fun algo_str :: "GitDiffAlgorithm \<Rightarrow> string" where
  "algo_str MYERS = ''myers''"
| "algo_str MINIMAL = ''minimal''"
| "algo_str PATIENCE = ''patience''"
| "algo_str HISTOGRAM = ''histogram''"

record GitFlags =
  max_count :: int
  context_lines :: int
  diff_algo :: GitDiffAlgorithm
  ignore_all_space :: bool

definition GitFlags_default :: GitFlags where
  "GitFlags_default =
     \<lparr>max_count = 25, context_lines = 3, diff_algo = MYERS, ignore_all_space = False\<rparr>"

record GitBranch =
  name :: string
  is_current :: bool
  is_remote :: bool
  remote :: "string option"
  points_to :: "string option"

text \<open>
  Python's \<open>datetime\<close>, by its fields: year, month, day, hour, minute, second,
  microsecond and the offset from UTC in seconds, if any.  The parser
  \<open>datetime.fromisoformat\<close> is left to the environment (below).
\<close>

datatype datetime = Datetime int int int int int int int "int option"

record Commit =
  short_hash :: string
  summary :: string
  body :: string
  author :: string
  date :: datetime

record GitTag =
  tag_name :: string
  message :: "string option"

record DiffHunk =
  header :: string
  old_start :: int
  old_count :: int
  new_start :: int
  new_count :: int
  content :: "string list"
  added_lines :: int
  removed_lines :: int

record DiffFile =
  file_path :: string
  change_type :: string
  hunks :: "DiffHunk list"

record GitDiff =
  from_commit :: string
  to_commit :: string
  files :: "DiffFile list"

record FileChange =
  path :: string
  fc_change_type :: GitFileChangeType
  old_path :: "string option"
  mode_change :: "(string \<times> string) option"
  is_binary :: bool
  additions :: "int option"
  deletions :: "int option"
  changes :: "int option"

record GitDiffSummary =
  summary_commit_a :: string
  summary_commit_b :: string
  summary_files :: "FileChange list"
  total_files_changed :: int
  total_additions :: int
  total_deletions :: int

subsection \<open>The external collaborators\<close>

text \<open>
  A finished \<open>git\<close> subprocess: exit status and the decoded output streams.  The
  environment of a connection is the version-control tool, run in a directory with a
  command line, and the standard library's \<open>datetime.fromisoformat\<close> (\<open>None\<close> is its
  \<open>ValueError\<close>).  Failures to start the process or to decode its output are not modelled.
\<close>

record proc =
  returncode :: int
  stdout :: string
  stderr :: string

record env =
  run_git :: "string \<Rightarrow> string list \<Rightarrow> proc"
  fromisoformat :: "string \<Rightarrow> datetime option"

text \<open>Truthiness of a \<open>str | None\<close> and list indexing that raises.\<close>

definition truthy :: "string option \<Rightarrow> bool" where
  "truthy v = (case v of None \<Rightarrow> False | Some s \<Rightarrow> s \<noteq> [])"

definition py_index :: "'a list \<Rightarrow> nat \<Rightarrow> error + 'a" where
  "py_index xs i = (if i < length xs then Inr (xs ! i) else Inl (IndexError ''list index out of range''))"

text \<open>Running a fallible step over a list, stopping at the first error.\<close>

fun map_result :: "('a \<Rightarrow> error + 'b) \<Rightarrow> 'a list \<Rightarrow> error + 'b list" where
  "map_result f [] = Inr []"
| "map_result f (x # xs) =
     (case f x of
        Inl e \<Rightarrow> Inl e
      | Inr y \<Rightarrow> (case map_result f xs of Inl e \<Rightarrow> Inl e | Inr ys \<Rightarrow> Inr (y # ys)))"

section \<open>The text parser (git.py)\<close>

subsection \<open>Branches and tags\<close>

text \<open>The body of the loop of \<open>parse_git_branches\<close>, for one line of the listing.\<close>

definition parse_branch_line :: "string \<Rightarrow> error + GitBranch" where
  "parse_branch_line raw =
     (let line0 = strip raw;
          cur = startswith line0 ''*'';
          line = (if cur then strip (drop 2 line0) else line0)
      in case partition_at ''->'' line of
           Some (a, b) \<Rightarrow>
             (let name_part = strip a; target = strip b;
                  rem = startswith name_part ''remotes/''
              in case (if rem then map_sum id Some (py_index (split_sep name_part ''/'') 1)
                       else Inr None) of
                   Inl e \<Rightarrow> Inl e
                 | Inr r \<Rightarrow>
                     Inr \<lparr>name = removeprefix name_part ''remotes/'', is_current = cur,
                          is_remote = rem, remote = r, points_to = Some target\<rparr>)
         | None \<Rightarrow>
             (let rem = startswith line ''remotes/''
              in case (if rem then map_sum id Some (py_index (split_sep line ''/'') 1)
                       else Inr None) of
                   Inl e \<Rightarrow> Inl e
                 | Inr r \<Rightarrow>
                     Inr \<lparr>name = removeprefix line ''remotes/'', is_current = cur,
                          is_remote = rem, remote = r, points_to = None\<rparr>))"

definition parse_git_branches :: "string \<Rightarrow> error + GitBranch list" where
  "parse_git_branches output = map_result parse_branch_line (splitlines (strip output))"

definition parse_tag_line :: "string \<Rightarrow> error + GitTag" where
  "parse_tag_line line =
     (case split_ws1 (strip line) of
        [] \<Rightarrow> Inl (IndexError ''list index out of range'')
      | [a] \<Rightarrow> Inr \<lparr>tag_name = a, message = None\<rparr>
      | a # b # _ \<Rightarrow> Inr \<lparr>tag_name = a, message = Some b\<rparr>)"

definition parse_git_tags :: "string \<Rightarrow> error + GitTag list" where
  "parse_git_tags output =
     map_result parse_tag_line (filter (\<lambda>line. strip line \<noteq> []) (splitlines (strip output)))"

definition get_list_of_branches :: "env \<Rightarrow> string \<Rightarrow> error + GitBranch list" where
  "get_list_of_branches ev repo_dir =
     (let p = run_git ev repo_dir [''git'', ''branch'', ''--list'', ''--all'', ''--no-color'']
      in if returncode p \<noteq> 0 then Inl (RuntimeError (''Git branch failed: '' @ stderr p))
         else parse_git_branches (stdout p))"

definition get_current_branch :: "env \<Rightarrow> string \<Rightarrow> error + GitBranch" where
  "get_current_branch ev repo_dir =
     (case get_list_of_branches ev repo_dir of
        Inl e \<Rightarrow> Inl e
      | Inr branches \<Rightarrow>
          (case find is_current branches of
             Some b \<Rightarrow> Inr b
           | None \<Rightarrow>
               Inl (RuntimeError (''failed to get current branch for repo '' @ repo_dir))))"

definition get_list_of_tags :: "env \<Rightarrow> string \<Rightarrow> error + GitTag list" where
  "get_list_of_tags ev repo_dir =
     (let p = run_git ev repo_dir [''git'', ''tag'', ''--list'', ''--no-color'']
      in if returncode p \<noteq> 0 then Inl (RuntimeError (''Git log failed: '' @ stderr p))
         else parse_git_tags (stdout p))"

subsection \<open>The commit log\<close>

definition SEP1 :: string where "SEP1 = ''<<<><<>>>''"
definition SEP2 :: string where "SEP2 = ''><><><<>>''"

definition git_log_cmd :: "string option \<Rightarrow> int \<Rightarrow> string list" where
  "git_log_cmd br n =
     [''git'', ''log'', ''--max-count='' @ py_str_int n,
      ''--pretty=format:'' @ SEP1 @ ''%h'' @ SEP2 @ ''%an'' @ SEP2 @ ''%ad'' @ SEP2 @ ''%s''
        @ SEP2 @ ''%b'',
      ''--date=iso'']
     @ (case br of None \<Rightarrow> [] | Some b \<Rightarrow> if b \<noteq> [] then [b] else [])"

definition parse_log_record :: "env \<Rightarrow> string \<Rightarrow> error + Commit" where
  "parse_log_record ev rec =
     (case split_sep rec SEP2 of
        [h, an, ad, s, b] \<Rightarrow>
          (case fromisoformat ev (strip ad) of
             None \<Rightarrow> Inl (ValueError (''Invalid isoformat string: '' @ strip ad))
           | Some d \<Rightarrow>
               Inr \<lparr>short_hash = strip h, summary = strip s, body = strip b,
                    author = strip an, date = d\<rparr>)
      | _ \<Rightarrow> Inl (ValueError ''wrong number of values to unpack (expected 5)''))"

definition get_git_log :: "env \<Rightarrow> string \<Rightarrow> string option \<Rightarrow> int \<Rightarrow> error + Commit list" where
  "get_git_log ev repo_dir br n =
     (let p = run_git ev repo_dir (git_log_cmd br n)
      in if returncode p \<noteq> 0 then Inl (RuntimeError (''Git log failed: '' @ stderr p))
         else map_result (parse_log_record ev)
                (filter (\<lambda>r. r \<noteq> []) (split_sep (strip (stdout p)) SEP1)))"


subsection \<open>Hunk headers\<close>

text \<open>
  \<open>re.match(r"@@ -(\d+)(?:,(\d+))? \+(\d+)(?:,(\d+))?", header)\<close>, as a scanner: the
  pattern is anchored at the start of the text only, a run of digits is taken whole, and
  an optional count is taken when a comma and a digit follow.  The result is the four
  groups, an absent optional group being \<open>None\<close>.
\<close>

definition opt_count :: "string \<Rightarrow> string option \<times> string" where
  "opt_count r =
     (case r of
        [] \<Rightarrow> (None, r)
      | c # cs \<Rightarrow>
          if c = CHR '','' \<and> takeWhile is_digit cs \<noteq> []
          then (Some (takeWhile is_digit cs), dropWhile is_digit cs)
          else (None, r))"

definition match_hunk_header ::
  "string \<Rightarrow> (string \<times> string option \<times> string \<times> string option) option" where
  "match_hunk_header h =
     (if \<not> startswith h ''@@ -'' then None
      else
        let r0 = drop 4 h; g1 = takeWhile is_digit r0; r1 = dropWhile is_digit r0
        in if g1 = [] then None
           else
             let (g2, r2) = opt_count r1
             in if \<not> startswith r2 '' +'' then None
                else
                  let r3 = drop 2 r2; g3 = takeWhile is_digit r3; r4 = dropWhile is_digit r3
                  in if g3 = [] then None
                     else let (g4, r5) = opt_count r4 in Some (g1, g2, g3, g4))"

text \<open>\<open>int(match.group(k) or 1)\<close>: an absent group counts as 1.\<close>

definition int_or_1 :: "string option \<Rightarrow> int option" where
  "int_or_1 g = (case g of None \<Rightarrow> Some 1 | Some d \<Rightarrow> py_int d)"

definition parse_hunk_header :: "string \<Rightarrow> error + (int \<times> int \<times> int \<times> int)" where
  "parse_hunk_header h =
     (case match_hunk_header h of
        None \<Rightarrow> Inl (ValueError (''Invalid hunk header: '' @ h))
      | Some (g1, g2, g3, g4) \<Rightarrow>
          (case (py_int g1, int_or_1 g2, py_int g3, int_or_1 g4) of
             (Some a, Some b, Some c, Some d) \<Rightarrow> Inr (a, b, c, d)
           | _ \<Rightarrow> Inl (ValueError ''invalid literal for int() with base 10'')))"

subsection \<open>Unified diffs\<close>

text \<open>
  The loop that \<open>get_git_diff\<close> and \<open>get_commit_diff\<close> both run over the lines of the
  output.  Its state is \<open>(files, current_file, current_hunk)\<close>.
\<close>

type_synonym diff_state = "DiffFile list \<times> DiffFile option \<times> DiffHunk option"

text \<open>\<open>if current_hunk and current_file: current_file.hunks.append(current_hunk)\<close>\<close>

definition close_hunk :: "DiffFile option \<Rightarrow> DiffHunk option \<Rightarrow> DiffFile option" where
  "close_hunk cf ch =
     (case (ch, cf) of
        (Some h, Some f) \<Rightarrow> Some (f\<lparr>hunks := hunks f @ [h]\<rparr>)
      | _ \<Rightarrow> cf)"

text \<open>\<open>if current_file: files.append(current_file)\<close>\<close>

definition close_file :: "DiffFile list \<Rightarrow> DiffFile option \<Rightarrow> DiffFile list" where
  "close_file fs cf = (case cf of Some f \<Rightarrow> fs @ [f] | None \<Rightarrow> fs)"

definition add_content :: "DiffHunk \<Rightarrow> string \<Rightarrow> DiffHunk" where
  "add_content h line =
     (let h1 = h\<lparr>content := content h @ [line]\<rparr>
      in if startswith line ''+'' \<and> \<not> startswith line ''+++''
         then h1\<lparr>added_lines := added_lines h1 + 1\<rparr>
         else if startswith line ''-'' \<and> \<not> startswith line ''---''
         then h1\<lparr>removed_lines := removed_lines h1 + 1\<rparr>
         else h1)"

definition set_path :: "DiffFile \<Rightarrow> string \<Rightarrow> DiffFile" where
  "set_path f line =
     (if file_path f = []
      then (if startswith line ''+++ b/'' then f\<lparr>file_path := drop 6 line\<rparr>
            else if startswith line ''--- a/'' then f\<lparr>file_path := drop 6 line\<rparr>
            else f)
      else f)"

definition diff_step :: "diff_state \<Rightarrow> string \<Rightarrow> error + diff_state" where
  "diff_step st line =
     (case st of (fs, cf, ch) \<Rightarrow>
        if startswith line ''diff --git''
        then Inr (close_file fs (close_hunk cf ch),
                  Some \<lparr>file_path = [], change_type = ''modified'', hunks = []\<rparr>, None)
        else if startswith line ''new file mode''
        then Inr (fs, map_option (\<lambda>f. f\<lparr>change_type := ''added''\<rparr>) cf, ch)
        else if startswith line ''deleted file mode''
        then Inr (fs, map_option (\<lambda>f. f\<lparr>change_type := ''deleted''\<rparr>) cf, ch)
        else if startswith line ''--- '' \<or> startswith line ''+++ ''
        then Inr (fs, map_option (\<lambda>f. set_path f line) cf, ch)
        else if startswith line ''@@''
        then (case parse_hunk_header (strip line) of
                Inl e \<Rightarrow> Inl e
              | Inr (a, b, c, d) \<Rightarrow>
                  Inr (fs, close_hunk cf ch,
                       Some \<lparr>header = strip line, old_start = a, old_count = b,
                             new_start = c, new_count = d, content = [],
                             added_lines = 0, removed_lines = 0\<rparr>))
        else Inr (fs, cf, map_option (\<lambda>h. add_content h line) ch))"

fun diff_loop :: "diff_state \<Rightarrow> string list \<Rightarrow> error + diff_state" where
  "diff_loop st [] = Inr st"
| "diff_loop st (line # ls) =
     (case diff_step st line of Inl e \<Rightarrow> Inl e | Inr st' \<Rightarrow> diff_loop st' ls)"

definition diff_finish :: "diff_state \<Rightarrow> DiffFile list" where
  "diff_finish st = (case st of (fs, cf, ch) \<Rightarrow> close_file fs (close_hunk cf ch))"

definition parse_diff_lines :: "string list \<Rightarrow> error + DiffFile list" where
  "parse_diff_lines ls =
     (case diff_loop ([], None, None) ls of Inl e \<Rightarrow> Inl e | Inr st \<Rightarrow> Inr (diff_finish st))"

definition parse_unified_diff :: "string \<Rightarrow> error + DiffFile list" where
  "parse_unified_diff out = parse_diff_lines (splitlines out)"

text \<open>The options both commands share, and the path filter (\<open>if paths:\<close>).\<close>

definition diff_options :: "GitFlags \<Rightarrow> string list" where
  "diff_options fl =
     [''--patch'', ''--no-color'', ''--find-renames'', ''--find-copies'',
      ''--unified='' @ py_str_int (context_lines fl),
      ''--diff-algorithm='' @ algo_str (diff_algo fl)]"

definition path_filter :: "string list option \<Rightarrow> string list" where
  "path_filter paths =
     (case paths of None \<Rightarrow> [] | Some ps \<Rightarrow> if ps \<noteq> [] then ''--'' # ps else [])"

definition git_diff_cmd ::
  "string \<Rightarrow> string \<Rightarrow> GitFlags \<Rightarrow> string list option \<Rightarrow> string list" where
  "git_diff_cmd a b fl paths =
     [''git'', ''diff''] @ diff_options fl
     @ (if ignore_all_space fl then [''--ignore-all-space''] else [])
     @ [a, b] @ path_filter paths"

definition get_git_diff ::
  "env \<Rightarrow> string \<Rightarrow> string \<Rightarrow> string \<Rightarrow> GitFlags \<Rightarrow> string list option \<Rightarrow> error + GitDiff" where
  "get_git_diff ev repo_dir a b fl paths =
     (let p = run_git ev repo_dir (git_diff_cmd a b fl paths)
      in if returncode p \<noteq> 0 then Inl (RuntimeError (''Git diff failed: '' @ stderr p))
         else (case parse_unified_diff (stdout p) of
                 Inl e \<Rightarrow> Inl e
               | Inr fs \<Rightarrow> Inr \<lparr>from_commit = a, to_commit = b, files = fs\<rparr>))"

definition git_show_cmd :: "GitFlags \<Rightarrow> string list option \<Rightarrow> string list" where
  "git_show_cmd fl paths =
     [''git'', ''show''] @ diff_options fl @ [''--pretty=format:'']
     @ (if ignore_all_space fl then [''--ignore-all-space''] else [])
     @ path_filter paths"

definition get_commit_diff ::
  "env \<Rightarrow> string \<Rightarrow> string \<Rightarrow> GitFlags \<Rightarrow> string list option \<Rightarrow> error + GitDiff" where
  "get_commit_diff ev repo_dir c fl paths =
     (let p = run_git ev repo_dir (git_show_cmd fl paths)
      in if returncode p \<noteq> 0 then Inl (RuntimeError (''Git show failed: '' @ stderr p))
         else (case parse_unified_diff (stdout p) of
                 Inl e \<Rightarrow> Inl e
               | Inr fs \<Rightarrow> Inr \<lparr>from_commit = c, to_commit = c, files = fs\<rparr>))"


subsection \<open>Compact summaries\<close>

text \<open>
  The path and change type that \<open>parse_compact_summary_line\<close> reads from the part left
  of the bar, and the counts it reads from the part right of it.
\<close>

definition parse_file_part :: "string \<Rightarrow> FileChange \<Rightarrow> FileChange" where
  "parse_file_part file_part fc =
     (case partition_at '' => '' file_part of
        Some (old, new) \<Rightarrow>
          fc\<lparr>old_path := Some (strip old), path := strip new, fc_change_type := RENAMED\<rparr>
      | None \<Rightarrow>
          if endswith file_part '' (new)''
          then fc\<lparr>path := strip (take (length file_part - 6) file_part),
                   fc_change_type := ADDED\<rparr>
          else if endswith file_part '' (gone)''
          then fc\<lparr>path := strip (take (length file_part - 7) file_part),
                   fc_change_type := DELETED\<rparr>
          else fc\<lparr>path := file_part, fc_change_type := MODIFIED\<rparr>)"

definition parse_changes_part :: "string \<Rightarrow> FileChange \<Rightarrow> FileChange" where
  "parse_changes_part changes_part fc =
     (if startswith changes_part ''Bin'' then fc\<lparr>is_binary := True\<rparr>
      else (case split_ws changes_part of
              [] \<Rightarrow> fc
            | p0 # _ \<Rightarrow>
                (case py_int p0 of
                   None \<Rightarrow> fc
                 | Some tot \<Rightarrow>
                     fc\<lparr>additions := Some (count_char changes_part CHR ''+''),
                        deletions := Some (count_char changes_part CHR ''-''),
                        changes := Some tot\<rparr>)))"

definition parse_compact_summary_line :: "string \<Rightarrow> FileChange option" where
  "parse_compact_summary_line raw =
     (let line = strip raw
      in if line = [] then None
         else (case partition_at ''|'' line of
                 None \<Rightarrow> None
               | Some (l, r) \<Rightarrow>
                   Some (parse_changes_part (strip r)
                           (parse_file_part (strip l)
                              \<lparr>path = [], fc_change_type = MODIFIED, old_path = None,
                               mode_change = None, is_binary = False, additions = None,
                               deletions = None, changes = None\<rparr>))))"

text \<open>\<open>if file_change.additions: total_additions += file_change.additions\<close>\<close>

definition count_or_0 :: "int option \<Rightarrow> int" where
  "count_or_0 v = (case v of None \<Rightarrow> 0 | Some n \<Rightarrow> n)"

definition git_diff_compact_summary ::
  "env \<Rightarrow> string \<Rightarrow> string \<Rightarrow> string option \<Rightarrow> error + GitDiffSummary" where
  "git_diff_compact_summary ev repo_dir a b =
     (let (ca, cb) = (case b of
                        None \<Rightarrow> (a @ ''^'', a)
                      | Some x \<Rightarrow> if x \<noteq> [] then (a, x) else (a @ ''^'', a));
          p = run_git ev repo_dir [''git'', ''diff'', ''--compact-summary'', ca, cb]
      in if returncode p \<noteq> 0
         then Inl (RuntimeError (''Git diff --compact-summary failed: '' @ stderr p))
         else
           let fcs = List.map_filter parse_compact_summary_line (split_nl (stdout p))
           in Inr \<lparr>summary_commit_a = ca, summary_commit_b = cb, summary_files = fcs,
                   total_files_changed = int (length fcs),
                   total_additions = sum_list (map (\<lambda>fc. count_or_0 (additions fc)) fcs),
                   total_deletions = sum_list (map (\<lambda>fc. count_or_0 (deletions fc)) fcs)\<rparr>)"

section \<open>The session engine (server.py)\<close>

record SessionState =
  repo :: "string option"
  branch :: "string option"
  commit_a :: "string option"
  commit_b :: "string option"
  open_paths :: "string list"
  git_flags :: GitFlags

definition SessionState_init :: SessionState where
  "SessionState_init =
     \<lparr>repo = None, branch = None, commit_a = None, commit_b = None, open_paths = [],
      git_flags = GitFlags_default\<rparr>"

text \<open>
  The message classes, one constructor each; \<open>MsgServer\<close> and \<open>MsgClient\<close> are unions
  over them and share \<open>MsgPing\<close>, \<open>MsgPong\<close> and \<open>MsgHeartbeat\<close>.  A \<open>MsgSessionState\<close>
  holds a reference to the connection's one state object, which is serialised when the
  batch is written, so the constructor carries no copy of the state.  Fields are given
  the types the classes declare.
\<close>

datatype Msg =
    MsgBranches "GitBranch list"
  | MsgTags "GitTag list"
  | MsgCommits "Commit list"
  | MsgRepos "string list"
  | MsgRepoSelect string
  | MsgBranchSelect string
  | MsgPing
  | MsgPong
  | MsgHeartbeat int
  | MsgGetDiff "string list option"
  | MsgOpenPath string
  | MsgClosePath string
  | MsgSetOpenPaths "string list"
  | MsgSetCommitA string
  | MsgResetCommitA
  | MsgSetCommitB string
  | MsgSwapCommits
  | MsgResetCommitB
  | MsgDiff GitDiff bool
  | MsgDiffSummary GitDiffSummary
  | MsgSessionState
  | MsgContextInc
  | MsgSetIgnoreAllSpace bool
  | MsgContextDec
  | MsgContextReset

text \<open>
  A connection: the session state, the events put on \<open>q_tx\<close> so far, in order, and
  whether \<open>ev_state_change\<close> is set.  The capacity of the queue is not modelled.
\<close>

record conn =
  state :: SessionState
  q_tx :: "Msg list"
  ev_state_change :: bool

definition conn_init :: conn where
  "conn_init = \<lparr>state = SessionState_init, q_tx = [], ev_state_change = False\<rparr>"

text \<open>
  The senders take the queue and return it with what they put on it; a gateway or parse
  failure is raised before anything is put.
\<close>

definition send_repo_data :: "env \<Rightarrow> string \<Rightarrow> string option \<Rightarrow> Msg list \<Rightarrow> error + Msg list" where
  "send_repo_data ev r br q =
     (case get_list_of_branches ev r of
        Inl e \<Rightarrow> Inl e
      | Inr branches \<Rightarrow>
          (case get_list_of_tags ev r of
             Inl e \<Rightarrow> Inl e
           | Inr tags \<Rightarrow>
               (case get_git_log ev r br 25 of
                  Inl e \<Rightarrow> Inl e
                | Inr commits \<Rightarrow>
                    Inr (q @ [MsgBranches branches, MsgTags (take 50 tags),
                              MsgCommits commits, MsgSessionState]))))"

definition send_diff_summary :: "env \<Rightarrow> SessionState \<Rightarrow> Msg list \<Rightarrow> error + Msg list" where
  "send_diff_summary ev st q =
     (if truthy (repo st) \<and> truthy (commit_a st) \<and> truthy (commit_b st)
      then (case git_diff_compact_summary ev (the (repo st)) (the (commit_a st)) (commit_b st) of
              Inl e \<Rightarrow> Inl e
            | Inr d \<Rightarrow> Inr (q @ [MsgDiffSummary d]))
      else if truthy (repo st) \<and> truthy (commit_a st)
      then (case git_diff_compact_summary ev (the (repo st)) (the (commit_a st)) None of
              Inl e \<Rightarrow> Inl e
            | Inr d \<Rightarrow> Inr (q @ [MsgDiffSummary d]))
      else Inr q)"

definition send_diff ::
  "env \<Rightarrow> string list option \<Rightarrow> SessionState \<Rightarrow> Msg list \<Rightarrow> error + Msg list" where
  "send_diff ev paths st q =
     (if truthy (repo st) \<and> truthy (commit_a st) \<and> truthy (commit_b st)
      then (case get_git_diff ev (the (repo st)) (the (commit_a st)) (the (commit_b st))
                   (git_flags st) paths of
              Inl e \<Rightarrow> Inl e
            | Inr d \<Rightarrow> Inr (q @ [MsgDiff d (paths \<noteq> None)]))
      else if truthy (repo st) \<and> truthy (commit_a st)
      then (case get_commit_diff ev (the (repo st)) (the (commit_a st)) (git_flags st) paths of
              Inl e \<Rightarrow> Inl e
            | Inr d \<Rightarrow> Inr (q @ [MsgDiff d (paths \<noteq> None)]))
      else Inr q)"


text \<open>
  \<open>handle_client_msg\<close>: the result is the exception raised (if any) and the connection
  as the handler leaves it.  The last equation is the \<open>case _\<close> arm, which only logs.
\<close>

fun handle_client_msg :: "env \<Rightarrow> Msg \<Rightarrow> conn \<Rightarrow> error option \<times> conn" where
  "handle_client_msg ev (MsgHeartbeat t) c = (None, c)"
| "handle_client_msg ev (MsgSetCommitA commit) c =
     (None, c\<lparr>state := (state c)\<lparr>commit_a := Some commit\<rparr>, ev_state_change := True\<rparr>)"
| "handle_client_msg ev MsgResetCommitA c =
     (None, c\<lparr>state := (state c)\<lparr>commit_a := None\<rparr>, ev_state_change := True\<rparr>)"
| "handle_client_msg ev (MsgSetCommitB commit) c =
     (None, c\<lparr>state := (state c)\<lparr>commit_b := Some commit\<rparr>, ev_state_change := True\<rparr>)"
| "handle_client_msg ev MsgResetCommitB c =
     (None, c\<lparr>state := (state c)\<lparr>commit_b := None\<rparr>, ev_state_change := True\<rparr>)"
| "handle_client_msg ev MsgSwapCommits c =
     (None, c\<lparr>state := (state c)\<lparr>commit_a := commit_b (state c), commit_b := commit_a (state c)\<rparr>,
              ev_state_change := True\<rparr>)"
| "handle_client_msg ev MsgContextInc c =
     (None, c\<lparr>state := (state c)\<lparr>git_flags := (git_flags (state c))
                 \<lparr>context_lines := context_lines (git_flags (state c)) + 1\<rparr>\<rparr>,
              ev_state_change := True\<rparr>)"
| "handle_client_msg ev MsgContextDec c =
     (if 0 < context_lines (git_flags (state c))
      then (None, c\<lparr>state := (state c)\<lparr>git_flags := (git_flags (state c))
                       \<lparr>context_lines := context_lines (git_flags (state c)) - 1\<rparr>\<rparr>,
                    ev_state_change := True\<rparr>)
      else (None, c))"
| "handle_client_msg ev MsgContextReset c =
     (if context_lines (git_flags (state c)) \<noteq> 3
      then (None, c\<lparr>state := (state c)\<lparr>git_flags := (git_flags (state c))
                       \<lparr>context_lines := 3\<rparr>\<rparr>,
                    ev_state_change := True\<rparr>)
      else (None, c))"
| "handle_client_msg ev (MsgSetIgnoreAllSpace v) c =
     (None, c\<lparr>state := (state c)\<lparr>git_flags := (git_flags (state c))
                 \<lparr>ignore_all_space := v\<rparr>\<rparr>,
              ev_state_change := True\<rparr>)"
| "handle_client_msg ev (MsgGetDiff paths) c =
     (case send_diff ev paths (state c) (q_tx c) of
        Inl e \<Rightarrow> (Some e, c)
      | Inr q \<Rightarrow> (None, c\<lparr>q_tx := q\<rparr>))"
| "handle_client_msg ev (MsgRepoSelect r) c =
     (if repo (state c) \<noteq> Some r
      then
        let c1 = c\<lparr>state := (state c)\<lparr>commit_a := None, commit_b := None, repo := Some r\<rparr>\<rparr>
        in case get_current_branch ev r of
             Inl e \<Rightarrow> (Some e, c1)
           | Inr b \<Rightarrow>
               let c2 = c1\<lparr>state := (state c1)\<lparr>branch := Some (name b)\<rparr>\<rparr>
               in case send_repo_data ev r None (q_tx c2) of
                    Inl e \<Rightarrow> (Some e, c2)
                  | Inr q \<Rightarrow> (None, c2\<lparr>q_tx := q, ev_state_change := True\<rparr>)
      else (None, c))"
| "handle_client_msg ev (MsgBranchSelect b) c =
     (if branch (state c) \<noteq> Some b
      then
        let c1 = c\<lparr>state := (state c)\<lparr>branch := Some b\<rparr>\<rparr>
        in if truthy (repo (state c1))
           then (case get_git_log ev (the (repo (state c1))) (Some b) 25 of
                   Inl e \<Rightarrow> (Some e, c1)
                 | Inr commits \<Rightarrow>
                     (None, c1\<lparr>q_tx := q_tx c1 @ [MsgCommits commits], ev_state_change := True\<rparr>))
           else (None, c1\<lparr>ev_state_change := True\<rparr>)
      else (None, c))"
| "handle_client_msg ev (MsgOpenPath p) c =
     (None, c\<lparr>state := (state c)\<lparr>open_paths :=
                 (if p \<notin> set (open_paths (state c)) then open_paths (state c) @ [p]
                  else open_paths (state c))\<rparr>,
              ev_state_change := True\<rparr>)"
| "handle_client_msg ev (MsgClosePath p) c =
     (if p \<in> set (open_paths (state c))
      then (None, c\<lparr>state := (state c)\<lparr>open_paths := remove1 p (open_paths (state c))\<rparr>,
                    ev_state_change := True\<rparr>)
      else (None, c))"
| "handle_client_msg ev (MsgSetOpenPaths ps) c =
     (None, c\<lparr>state := (state c)\<lparr>open_paths := ps\<rparr>, ev_state_change := True\<rparr>)"
| "handle_client_msg ev other c = (None, c)"

text \<open>
  \<open>handle_client_msg_loop\<close> on the commands received, in order; an exception ends the
  connection, so the commands after it are not handled.
\<close>

fun handle_client_msgs :: "env \<Rightarrow> Msg list \<Rightarrow> conn \<Rightarrow> error option \<times> conn" where
  "handle_client_msgs ev [] c = (None, c)"
| "handle_client_msgs ev (m # ms) c =
     (case handle_client_msg ev m c of
        (Some e, c') \<Rightarrow> (Some e, c')
      | (None, c') \<Rightarrow> handle_client_msgs ev ms c')"

text \<open>
  One pass of \<open>handle_state_changes_loop\<close> from the wake to the debounce sleep, against
  the snapshot \<open>prev\<close> taken before the wait.  The commands handled while the pass awaits
  the gateway are not interleaved here.  \<open>list(new_paths)\<close> has the order of a Python
  set, which is unspecified; the model lists the new paths in the order of \<open>open_paths\<close>.
\<close>

definition resync_needed :: "SessionState \<Rightarrow> SessionState \<Rightarrow> bool" where
  "resync_needed st prev =
     (repo st \<noteq> repo prev \<or> branch st \<noteq> branch prev \<or> commit_a st \<noteq> commit_a prev
      \<or> commit_b st \<noteq> commit_a prev)"

definition new_paths :: "SessionState \<Rightarrow> SessionState \<Rightarrow> string list" where
  "new_paths st prev = remdups (filter (\<lambda>p. p \<notin> set (open_paths prev)) (open_paths st))"

definition handle_state_changes :: "env \<Rightarrow> SessionState \<Rightarrow> conn \<Rightarrow> error option \<times> conn" where
  "handle_state_changes ev prev c =
     (let st = state c; c1 = c\<lparr>q_tx := q_tx c @ [MsgSessionState]\<rparr>
      in if resync_needed st prev
         then (case send_diff_summary ev st (q_tx c1) of
                 Inl e \<Rightarrow> (Some e, c1)
               | Inr q2 \<Rightarrow>
                   if open_paths st \<noteq> []
                   then (case send_diff ev (Some (open_paths st)) st q2 of
                           Inl e \<Rightarrow> (Some e, c1\<lparr>q_tx := q2\<rparr>)
                         | Inr q3 \<Rightarrow> (None, c1\<lparr>q_tx := q3, ev_state_change := False\<rparr>))
                   else (None, c1\<lparr>q_tx := q2, ev_state_change := False\<rparr>))
         else if new_paths st prev \<noteq> []
         then (case send_diff ev (Some (new_paths st prev)) st (q_tx c1) of
                 Inl e \<Rightarrow> (Some e, c1)
               | Inr q2 \<Rightarrow> (None, c1\<lparr>q_tx := q2, ev_state_change := False\<rparr>))
         else (None, c1\<lparr>ev_state_change := False\<rparr>))"


section \<open>Auxiliary definitions for the properties\<close>

text \<open>The context line count of a connection's state.\<close>

definition conn_context :: "conn \<Rightarrow> int" where
  "conn_context c = context_lines (git_flags (state c))"

text \<open>An environment whose every command succeeds with empty output.\<close>

definition quiet_env :: env where
  "quiet_env = \<lparr>run_git = (\<lambda>d cmd. \<lparr>returncode = 0, stdout = [], stderr = []\<rparr>),
                 fromisoformat = (\<lambda>s. None)\<rparr>"








text \<open>
  A snapshot with endpoint A set and endpoint B unset, and the connection after
  \<open>set-commit-b\<close> with the commit of endpoint A.
\<close>

definition commit_b_prev :: SessionState where
  "commit_b_prev =
     SessionState_init\<lparr>repo := Some ''/r'', branch := Some ''main'', commit_a := Some ''c1'',
       open_paths := [''a.txt'']\<rparr>"

definition commit_b_now :: conn where
  "commit_b_now = conn_init\<lparr>state := commit_b_prev\<lparr>commit_b := Some ''c1''\<rparr>,
     ev_state_change := True\<rparr>"









text \<open>
  The content lines that the specification counts as added and as removed, and the
  invariant of the diff loop: the two counts of every hunk, closed or open, are the
  numbers of such lines in its content.
\<close>

definition is_added :: "string \<Rightarrow> bool" where
  "is_added line = (startswith line ''+'' \<and> \<not> startswith line ''+++'')"

definition is_removed :: "string \<Rightarrow> bool" where
  "is_removed line = (startswith line ''-'' \<and> \<not> startswith line ''---'')"

definition counts_ok :: "DiffHunk \<Rightarrow> bool" where
  "counts_ok h =
     (added_lines h = int (length (filter is_added (content h)))
      \<and> removed_lines h = int (length (filter is_removed (content h))))"

definition hunks_ok :: "DiffFile \<Rightarrow> bool" where
  "hunks_ok f = list_all counts_ok (hunks f)"

definition state_ok :: "diff_state \<Rightarrow> bool" where
  "state_ok st =
     (case st of (fs, cf, ch) \<Rightarrow>
        list_all hunks_ok fs
        \<and> (case cf of None \<Rightarrow> True | Some f \<Rightarrow> hunks_ok f)
        \<and> (case ch of None \<Rightarrow> True | Some h \<Rightarrow> counts_ok h))"

text \<open>
  A hunk with one removed and two added lines, a content line that starts with \<open>+++\<close>
  and a context line; its file; and an environment where git answers with their diff.
\<close>

definition example_hunk :: DiffHunk where
  "example_hunk =
     \<lparr>header = ''@@ -1,2 +1,3 @@'', old_start = 1, old_count = 2, new_start = 1,
      new_count = 3, content = [''-x'', ''+y'', ''+z'', ''+++w'', '' u''],
      added_lines = 2, removed_lines = 1\<rparr>"

definition example_file :: DiffFile where
  "example_file = \<lparr>file_path = ''f'', change_type = ''modified'', hunks = [example_hunk]\<rparr>"

definition hunk_env :: env where
  "hunk_env =
     \<lparr>run_git = (\<lambda>d cmd.
          \<lparr>returncode = 0,
           stdout = ''diff --git a/f b/f'' @ [CHR 0x0A] @ ''--- a/f'' @ [CHR 0x0A]
                    @ ''+++ b/f'' @ [CHR 0x0A] @ ''@@ -1,2 +1,3 @@'' @ [CHR 0x0A]
                    @ ''-x'' @ [CHR 0x0A] @ ''+y'' @ [CHR 0x0A] @ ''+z'' @ [CHR 0x0A]
                    @ ''+++w'' @ [CHR 0x0A] @ '' u'' @ [CHR 0x0A],
           stderr = []\<rparr>),
      fromisoformat = (\<lambda>s. None)\<rparr>"

text \<open>
  The line that opens a file's section, the two marker forms a path is read from, and the
  path of a section: what follows the six-character prefix of its first marker line
  that leaves anything after the prefix, and empty if there is none.
\<close>

definition is_diff_line :: "string \<Rightarrow> bool" where
  "is_diff_line line = startswith line ''diff --git''"

definition is_marker :: "string \<Rightarrow> bool" where
  "is_marker line = (startswith line ''+++ b/'' \<or> startswith line ''--- a/'')"

definition first_path :: "string list \<Rightarrow> string" where
  "first_path sec =
     (case find (\<lambda>line. is_marker line \<and> drop 6 line \<noteq> []) sec of
        None \<Rightarrow> []
      | Some line \<Rightarrow> drop 6 line)"

text \<open>The number of files the diff loop has opened so far.\<close>

definition nfiles :: "diff_state \<Rightarrow> nat" where
  "nfiles st = (case st of (fs, cf, ch) \<Rightarrow> length fs + (if cf = None then 0 else 1))"

section \<open>Properties of the session engine\<close>

lemma truthy_None [simp]: "truthy None = False"
  by (simp add: truthy_def)

lemma truthy_Some [simp]: "truthy (Some s) = (s \<noteq> [])"
  by (simp add: truthy_def)

subsection \<open>Nothing is sent without a repository and endpoint A\<close>

text \<open>
  Claim C10.  When endpoint A (\<open>commit_a\<close>) is unset, or no repository is selected,
  \<open>send_diff\<close> and \<open>send_diff_summary\<close> return without raising and leave the outbound
  queue as it was: no diff and no diff-summary event is produced, whatever endpoint B,
  the requested paths and the answers of git are.
\<close>

theorem send_nothing_without_repo_or_commit_a:
  "commit_a st = None \<or> repo st = None \<Longrightarrow>
     send_diff ev paths st q = Inr q \<and> send_diff_summary ev st q = Inr q"
  by (auto simp: send_diff_def send_diff_summary_def)

theorem send_nothing_without_repo_or_commit_a_witness:
  "commit_a (SessionState_init\<lparr>repo := Some ''/r'', commit_b := Some ''b1''\<rparr>) = None
   \<and> send_diff quiet_env (Some [''f.txt''])
        (SessionState_init\<lparr>repo := Some ''/r'', commit_b := Some ''b1''\<rparr>) [MsgPing] = Inr [MsgPing]
   \<and> send_diff_summary quiet_env
        (SessionState_init\<lparr>repo := Some ''/r'', commit_b := Some ''b1''\<rparr>) [MsgPing] = Inr [MsgPing]"
  using send_nothing_without_repo_or_commit_a
    [of "SessionState_init\<lparr>repo := Some ''/r'', commit_b := Some ''b1''\<rparr>" quiet_env
        "Some [''f.txt'']" "[MsgPing]"]
  by (simp add: SessionState_init_def)

text \<open>The same holds when either field is the empty string, which Python also takes as false.\<close>

lemma send_nothing_when_falsy:
  "\<not> truthy (commit_a st) \<or> \<not> truthy (repo st) \<Longrightarrow>
     send_diff ev paths st q = Inr q \<and> send_diff_summary ev st q = Inr q"
  by (auto simp: send_diff_def send_diff_summary_def)

subsection \<open>The context line count\<close>

lemma handle_client_msg_context:
  "0 \<le> conn_context c \<Longrightarrow> 0 \<le> conn_context (snd (handle_client_msg ev m c))"
  by (cases m) (auto simp: conn_context_def Let_def split: sum.splits)

lemma handle_client_msgs_context:
  "0 \<le> conn_context c \<Longrightarrow> 0 \<le> conn_context (snd (handle_client_msgs ev ms c))"
proof (induction ms arbitrary: c)
  case Nil
  then show ?case by simp
next
  case (Cons m ms)
  obtain r c' where h: "handle_client_msg ev m c = (r, c')"
    by (cases "handle_client_msg ev m c")
  have "0 \<le> conn_context c'"
    using handle_client_msg_context [OF Cons.prems, of ev m] h by simp
  then show ?case
    using Cons.IH [of c'] h by (cases r) simp_all
qed

lemma conn_context_init: "conn_context conn_init = 3"
  by (simp add: conn_context_def conn_init_def SessionState_init_def GitFlags_default_def)

text \<open>
  Claim C8.  The context line count of the initial state is 3.  In the state \<open>c\<close> that
  any sequence of commands \<open>ms\<close> leaves behind (under any environment, and also when a
  command of the sequence raised), the count is not negative; from there
  \<open>context-inc\<close> adds 1, \<open>context-dec\<close> subtracts 1 unless the count is 0, where it leaves
  it, and \<open>context-reset\<close> sets it to 3, changing nothing at all when it is 3 already.
\<close>

theorem context_lines_never_negative:
  "(let c = snd (handle_client_msgs ev ms conn_init)
    in conn_context conn_init = 3
     \<and> 0 \<le> conn_context c
     \<and> conn_context (snd (handle_client_msg ev MsgContextInc c)) = conn_context c + 1
     \<and> conn_context (snd (handle_client_msg ev MsgContextDec c))
         = (if conn_context c = 0 then 0 else conn_context c - 1)
     \<and> conn_context (snd (handle_client_msg ev MsgContextReset c)) = 3
     \<and> (if conn_context c = 3 then handle_client_msg ev MsgContextReset c = (None, c)
         else True))"
proof -
  define c where "c = snd (handle_client_msgs ev ms conn_init)"
  have nonneg: "0 \<le> conn_context c"
    unfolding c_def by (rule handle_client_msgs_context) (simp add: conn_context_init)
  have "conn_context conn_init = 3
     \<and> 0 \<le> conn_context c
     \<and> conn_context (snd (handle_client_msg ev MsgContextInc c)) = conn_context c + 1
     \<and> conn_context (snd (handle_client_msg ev MsgContextDec c))
         = (if conn_context c = 0 then 0 else conn_context c - 1)
     \<and> conn_context (snd (handle_client_msg ev MsgContextReset c)) = 3
     \<and> (if conn_context c = 3 then handle_client_msg ev MsgContextReset c = (None, c)
         else True)"
    using nonneg conn_context_init by (auto simp: conn_context_def)
  then show ?thesis
    unfolding c_def Let_def .
qed

subsection \<open>Expanding and collapsing paths\<close>





subsection \<open>Requesting a diff\<close>



subsection \<open>The change watcher\<close>

text \<open>
  What a pass of the watcher does once the comparison it makes finds a difference: the
  echo, the summary, and the diff of the expanded paths if there are any.
\<close>

lemma resync_on_change:
  "repo (state c) \<noteq> repo prev \<or> branch (state c) \<noteq> branch prev
     \<or> commit_a (state c) \<noteq> commit_a prev \<or> commit_b (state c) \<noteq> commit_a prev \<Longrightarrow>
   handle_state_changes ev prev c =
     (case send_diff_summary ev (state c) (q_tx c @ [MsgSessionState]) of
        Inl e \<Rightarrow> (Some e, c\<lparr>q_tx := q_tx c @ [MsgSessionState]\<rparr>)
      | Inr q2 \<Rightarrow>
          if open_paths (state c) \<noteq> []
          then (case send_diff ev (Some (open_paths (state c))) (state c) q2 of
                  Inl e \<Rightarrow> (Some e, c\<lparr>q_tx := q2\<rparr>)
                | Inr q3 \<Rightarrow> (None, c\<lparr>q_tx := q3, ev_state_change := False\<rparr>))
          else (None, c\<lparr>q_tx := q2, ev_state_change := False\<rparr>))"
  by (auto simp: handle_state_changes_def resync_needed_def Let_def split: sum.splits)

text \<open>
  Claim C1 at the failing input.  The snapshot has a repository, a branch, endpoint A at
  commit \<open>c1\<close>, endpoint B unset and one expanded path; the command \<open>set-commit-b\<close> with
  \<open>c1\<close> changes endpoint B and nothing else, and sets the change signal.  The watcher
  compares the new endpoint B with the old endpoint A, finds them equal, and pushes the
  session-state echo only: no summary and no diff, whatever git would answer.
\<close>

theorem commit_b_change_not_resynced:
  "handle_client_msg ev (MsgSetCommitB ''c1'') (conn_init\<lparr>state := commit_b_prev\<rparr>)
     = (None, commit_b_now)
   \<and> commit_b (state commit_b_now) \<noteq> commit_b commit_b_prev
   \<and> repo (state commit_b_now) = Some ''/r''
   \<and> commit_a (state commit_b_now) = Some ''c1''
   \<and> open_paths (state commit_b_now) = [''a.txt'']
   \<and> handle_state_changes ev commit_b_prev commit_b_now
       = (None, commit_b_now\<lparr>q_tx := [MsgSessionState], ev_state_change := False\<rparr>)"
  by (simp add: handle_state_changes_def resync_needed_def new_paths_def commit_b_now_def
      commit_b_prev_def conn_init_def SessionState_init_def Let_def)

section \<open>Properties of the text parser\<close>

subsection \<open>Hunk headers\<close>



lemma not_digit_chars [simp]:
  "\<not> is_digit CHR '',''" "\<not> is_digit CHR '' ''" "\<not> is_digit CHR ''_''"
  "\<not> is_digit CHR ''-''" "\<not> is_digit CHR ''+''"
  by (simp_all add: is_digit_def)












lemma startswith_split: "startswith s p \<Longrightarrow> s = p @ drop (length p) s"
  by (metis append_take_drop_id startswith_def)












subsection \<open>Compact summary lines\<close>

lemma partition_at_char:
  "c \<notin> set l \<Longrightarrow> partition_at [c] (l @ c # r) = Some (l, r)"
  by (induction l) (auto simp: startswith_def)

lemma partition_at_Some:
  "partition_at sep s = Some (a, b) \<Longrightarrow> s = a @ sep @ b"
proof (induction s arbitrary: a b)
  case Nil
  then show ?case by (simp split: if_splits)
next
  case (Cons c cs)
  show ?case
  proof (cases "startswith (c # cs) sep")
    case True
    with Cons.prems have "a = []" "b = drop (length sep) (c # cs)"
      by simp_all
    moreover from True have "c # cs = sep @ drop (length sep) (c # cs)"
      unfolding startswith_def by (metis append_take_drop_id)
    ultimately show ?thesis by simp
  next
    case False
    with Cons.prems obtain a' where "partition_at sep cs = Some (a', b)" "a = c # a'"
      by (auto split: option.splits)
    with Cons.IH [of a' b] show ?thesis by simp
  qed
qed

lemma endswith_iff: "endswith s p = (\<exists>q. s = q @ p)"
  unfolding endswith_def
  by (metis (no_types, lifting) add_diff_cancel_right' append_eq_conv_conj append_take_drop_id
      le_add2 length_append)

lemma endswith_take: "s = q @ p \<Longrightarrow> take (length s - length p) s = q"
  by simp

lemma parse_changes_part_keeps:
  "path (parse_changes_part cp fc) = path fc
   \<and> fc_change_type (parse_changes_part cp fc) = fc_change_type fc
   \<and> old_path (parse_changes_part cp fc) = old_path fc"
  by (simp add: parse_changes_part_def split: list.splits option.splits)

text \<open>
  Claim C6.  Take a line that, trimmed, has a bar, and let \<open>l\<close> be what stands left of the
  first bar.  The line parses to a \<open>FileChange\<close>, and the trimmed left part alone decides
  its type and paths, in this order: if it contains \<open> => \<close>, the type is renamed, and
  the old and new path are the trimmed texts before and after the first \<open> => \<close>; else if
  it ends in \<open> (new)\<close>, the type is added and the path is the text before that suffix,
  trimmed; else if it ends in \<open> (gone)\<close>, the type is deleted and the path is the text
  before that suffix, trimmed; else the type is modified and the path is the whole left
  part.  The line \<open> renamed.txt => new_name.txt | 0\<close> gives type renamed, old path
  \<open>renamed.txt\<close>, path \<open>new_name.txt\<close> and 0 changes.
\<close>

theorem compact_summary_path_and_type:
  "strip raw = l @ ''|'' @ r \<Longrightarrow> CHR ''|'' \<notin> set l \<Longrightarrow>
   (\<exists>fc. parse_compact_summary_line raw = Some fc \<and>
      (case partition_at '' => '' (strip l) of
         Some (old, new) \<Rightarrow>
           fc_change_type fc = RENAMED \<and> old_path fc = Some (strip old) \<and> path fc = strip new
       | None \<Rightarrow>
           if endswith (strip l) '' (new)''
           then fc_change_type fc = ADDED \<and> old_path fc = None
                \<and> (\<exists>p. strip l = p @ '' (new)'' \<and> path fc = strip p)
           else if endswith (strip l) '' (gone)''
           then fc_change_type fc = DELETED \<and> old_path fc = None
                \<and> (\<exists>p. strip l = p @ '' (gone)'' \<and> path fc = strip p)
           else fc_change_type fc = MODIFIED \<and> old_path fc = None \<and> path fc = strip l))
   \<and> parse_compact_summary_line '' renamed.txt => new_name.txt | 0''
       = Some \<lparr>path = ''new_name.txt'', fc_change_type = RENAMED,
               old_path = Some ''renamed.txt'', mode_change = None, is_binary = False,
               additions = Some 0, deletions = Some 0, changes = Some 0\<rparr>"
proof -
  assume s: "strip raw = l @ ''|'' @ r" and l: "CHR ''|'' \<notin> set l"
  have ex: "parse_compact_summary_line '' renamed.txt => new_name.txt | 0''
       = Some \<lparr>path = ''new_name.txt'', fc_change_type = RENAMED,
               old_path = Some ''renamed.txt'', mode_change = None, is_binary = False,
               additions = Some 0, deletions = Some 0, changes = Some 0\<rparr>"
    by code_simp
  have p: "partition_at ''|'' (strip raw) = Some (l, r)"
    using partition_at_char [OF l, of r] s by simp
  have ne: "strip raw \<noteq> []"
    using s by simp
  define fc0 where "fc0 = \<lparr>path = [], fc_change_type = MODIFIED, old_path = None,
     mode_change = None, is_binary = False, additions = None, deletions = None,
     changes = None :: int option\<rparr>"
  define fc where "fc = parse_changes_part (strip r) (parse_file_part (strip l) fc0)"
  have r: "parse_compact_summary_line raw = Some fc"
    using p ne by (simp add: parse_compact_summary_line_def Let_def fc_def fc0_def)
  have k: "path fc = path (parse_file_part (strip l) fc0)"
    "fc_change_type fc = fc_change_type (parse_file_part (strip l) fc0)"
    "old_path fc = old_path (parse_file_part (strip l) fc0)"
    using parse_changes_part_keeps [of "strip r" "parse_file_part (strip l) fc0"]
    by (simp_all add: fc_def)
  have new: "endswith (strip l) '' (new)'' \<Longrightarrow>
      \<exists>p. strip l = p @ '' (new)'' \<and> strip (take (length (strip l) - 6) (strip l)) = strip p"
    by (auto simp: endswith_iff)
  have gone: "endswith (strip l) '' (gone)'' \<Longrightarrow>
      \<exists>p. strip l = p @ '' (gone)'' \<and> strip (take (length (strip l) - 7) (strip l)) = strip p"
    by (auto simp: endswith_iff)
  have "case partition_at '' => '' (strip l) of
         Some (old, new) \<Rightarrow>
           fc_change_type fc = RENAMED \<and> old_path fc = Some (strip old) \<and> path fc = strip new
       | None \<Rightarrow>
           if endswith (strip l) '' (new)''
           then fc_change_type fc = ADDED \<and> old_path fc = None
                \<and> (\<exists>p. strip l = p @ '' (new)'' \<and> path fc = strip p)
           else if endswith (strip l) '' (gone)''
           then fc_change_type fc = DELETED \<and> old_path fc = None
                \<and> (\<exists>p. strip l = p @ '' (gone)'' \<and> path fc = strip p)
           else fc_change_type fc = MODIFIED \<and> old_path fc = None \<and> path fc = strip l"
    using new gone
    by (auto simp: k parse_file_part_def fc0_def split: option.splits)
  with r ex show ?thesis by simp
qed

theorem compact_summary_path_and_type_witness:
  "strip '' old_file.txt (gone) | 5 -----'' = ''old_file.txt (gone) '' @ ''|'' @ '' 5 -----''
   \<and> CHR ''|'' \<notin> set ''old_file.txt (gone) ''
   \<and> parse_compact_summary_line '' old_file.txt (gone) | 5 -----''
       = Some \<lparr>path = ''old_file.txt'', fc_change_type = DELETED,
               old_path = None, mode_change = None, is_binary = False,
               additions = Some 0, deletions = Some 5, changes = Some 5\<rparr>"
proof -
  have a: "strip '' old_file.txt (gone) | 5 -----'' = ''old_file.txt (gone) '' @ ''|'' @ '' 5 -----''"
    by code_simp
  have b: "CHR ''|'' \<notin> set ''old_file.txt (gone) ''"
    by simp
  have c: "parse_compact_summary_line '' old_file.txt (gone) | 5 -----''
       = Some \<lparr>path = ''old_file.txt'', fc_change_type = DELETED,
               old_path = None, mode_change = None, is_binary = False,
               additions = Some 0, deletions = Some 5, changes = Some 5\<rparr>"
    by code_simp
  from compact_summary_path_and_type [OF a b] a b c show ?thesis
    by simp
qed

subsection \<open>Branch listings\<close>

text \<open>
  Claim C9 at the failing input.  The line \<open>*main\<close> does not have the prefix \<open>* \<close>, yet
  the branch parsed from it is marked current, and its name has lost the first letter
  with the star: the test is for the star alone, and two characters are dropped.
\<close>

theorem star_without_space_is_current:
  "\<not> startswith ''*main'' ''* ''
   \<and> parse_git_branches ''*main''
       = Inr [\<lparr>name = ''ain'', is_current = True, is_remote = False, remote = None,
               points_to = None\<rparr>]"
  by code_simp

text \<open>What marks a branch current is that its trimmed line starts with a star.\<close>

lemma branch_line_current:
  "parse_branch_line raw = Inr b \<Longrightarrow> is_current b = startswith (strip raw) ''*''"
  by (auto simp: parse_branch_line_def Let_def split: option.splits sum.splits if_splits)

subsection \<open>Line counts of hunks\<close>

lemma added_not_removed: "is_added line \<Longrightarrow> \<not> is_removed line"
  by (cases line) (auto simp: is_added_def is_removed_def startswith_def)

lemma counts_ok_add_content: "counts_ok h \<Longrightarrow> counts_ok (add_content h line)"
  using added_not_removed [of line]
  by (auto simp: counts_ok_def add_content_def Let_def is_added_def is_removed_def)

lemma hunks_ok_close_hunk:
  "(case cf of None \<Rightarrow> True | Some f \<Rightarrow> hunks_ok f) \<Longrightarrow>
   (case ch of None \<Rightarrow> True | Some h \<Rightarrow> counts_ok h) \<Longrightarrow>
   (case close_hunk cf ch of None \<Rightarrow> True | Some f \<Rightarrow> hunks_ok f)"
  by (auto simp: close_hunk_def hunks_ok_def split: option.splits)

lemma hunks_ok_close_file:
  "list_all hunks_ok fs \<Longrightarrow> (case cf of None \<Rightarrow> True | Some f \<Rightarrow> hunks_ok f) \<Longrightarrow>
   list_all hunks_ok (close_file fs cf)"
  by (auto simp: close_file_def split: option.splits)

lemma hunks_ok_updates [simp]:
  "hunks_ok (f\<lparr>change_type := t\<rparr>) = hunks_ok f"
  "hunks_ok (set_path f line) = hunks_ok f"
  by (simp_all add: hunks_ok_def set_path_def)

lemma state_ok_step:
  assumes "state_ok st" and "diff_step st line = Inr st'"
  shows "state_ok st'"
proof -
  obtain fs cf ch where st: "st = (fs, cf, ch)"
    by (cases st)
  from assms(1) have fs: "list_all hunks_ok fs"
    and cf: "case cf of None \<Rightarrow> True | Some f \<Rightarrow> hunks_ok f"
    and ch: "case ch of None \<Rightarrow> True | Some h \<Rightarrow> counts_ok h"
    by (simp_all add: state_ok_def st)
  note cl = hunks_ok_close_hunk [OF cf ch]
  note fl = hunks_ok_close_file [OF fs cl]
  have new: "counts_ok \<lparr>header = hd', old_start = a, old_count = b, new_start = c, new_count = d,
       content = [], added_lines = 0, removed_lines = 0\<rparr>" for hd' a b c d
    by (simp add: counts_ok_def)
  have empty: "hunks_ok \<lparr>file_path = [], change_type = ''modified'', hunks = []\<rparr>"
    by (simp add: hunks_ok_def)
  from assms(2) show ?thesis
    unfolding st diff_step_def state_ok_def
    using fs cf ch cl fl new empty
    by (auto simp: counts_ok_add_content split: if_splits sum.splits option.splits)
qed

lemma state_ok_loop:
  "state_ok st \<Longrightarrow> diff_loop st ls = Inr st' \<Longrightarrow> state_ok st'"
proof (induction ls arbitrary: st)
  case Nil
  then show ?case by simp
next
  case (Cons line ls)
  from Cons.prems(2) obtain st1 where s: "diff_step st line = Inr st1"
    and l: "diff_loop st1 ls = Inr st'"
    by (auto split: sum.splits)
  from state_ok_step [OF Cons.prems(1) s] Cons.IH l show ?case
    by blast
qed

lemma parse_diff_lines_ok:
  assumes "parse_diff_lines ls = Inr fs"
  shows "list_all hunks_ok fs"
proof -
  from assms obtain st where l: "diff_loop ([], None, None) ls = Inr st" and f: "fs = diff_finish st"
    by (auto simp: parse_diff_lines_def split: sum.splits)
  have "state_ok ([], None, None)"
    by (simp add: state_ok_def)
  from state_ok_loop [OF this l] show ?thesis
    unfolding f diff_finish_def state_ok_def
    by (auto intro: hunks_ok_close_file hunks_ok_close_hunk)
qed

text \<open>
  Claim C4.  In every hunk of every file that the unified-diff parse returns, from any
  text, whether called on its own, by \<open>get_git_diff\<close> or by \<open>get_commit_diff\<close>,
  \<open>added_lines\<close> is the number of content lines that start with \<open>+\<close> and not with
  \<open>+++\<close>, and \<open>removed_lines\<close> the number of content lines that start with \<open>-\<close> and
  not with \<open>---\<close>.
\<close>

theorem hunk_line_counts:
  "parse_unified_diff out = Inr fs
     \<or> get_git_diff ev r a b fl ps = Inr \<lparr>from_commit = x, to_commit = y, files = fs\<rparr>
     \<or> get_commit_diff ev r a fl ps = Inr \<lparr>from_commit = x, to_commit = y, files = fs\<rparr> \<Longrightarrow>
   f \<in> set fs \<Longrightarrow> h \<in> set (hunks f) \<Longrightarrow>
   added_lines h = int (length (filter is_added (content h)))
   \<and> removed_lines h = int (length (filter is_removed (content h)))"
proof -
  assume r: "parse_unified_diff out = Inr fs
     \<or> get_git_diff ev r a b fl ps = Inr \<lparr>from_commit = x, to_commit = y, files = fs\<rparr>
     \<or> get_commit_diff ev r a fl ps = Inr \<lparr>from_commit = x, to_commit = y, files = fs\<rparr>"
    and f: "f \<in> set fs" and h: "h \<in> set (hunks f)"
  from r obtain raw where "parse_unified_diff raw = Inr fs"
    by (auto simp: get_git_diff_def get_commit_diff_def Let_def split: if_splits sum.splits)
  then have "list_all hunks_ok fs"
    by (simp add: parse_unified_diff_def parse_diff_lines_ok)
  with f h have "counts_ok h"
    by (auto simp: list_all_iff hunks_ok_def)
  then show ?thesis
    by (simp add: counts_ok_def)
qed


theorem hunk_line_counts_witness:
  "get_git_diff hunk_env ''/r'' ''c1'' ''c2'' GitFlags_default None
     = Inr \<lparr>from_commit = ''c1'', to_commit = ''c2'', files = [example_file]\<rparr>
   \<and> example_file \<in> set [example_file]
   \<and> example_hunk \<in> set (hunks example_file)
   \<and> content example_hunk = [''-x'', ''+y'', ''+z'', ''+++w'', '' u'']
   \<and> added_lines example_hunk = int (length (filter is_added (content example_hunk)))
   \<and> removed_lines example_hunk = int (length (filter is_removed (content example_hunk)))
   \<and> added_lines example_hunk = 2 \<and> removed_lines example_hunk = 1"
proof -
  have a: "get_git_diff hunk_env ''/r'' ''c1'' ''c2'' GitFlags_default None
     = Inr \<lparr>from_commit = ''c1'', to_commit = ''c2'', files = [example_file]\<rparr>"
    by code_simp
  have b: "example_file \<in> set [example_file]"
    by simp
  have c: "example_hunk \<in> set (hunks example_file)"
    by (simp add: example_file_def)
  from hunk_line_counts [OF disjI2 [OF disjI1 [OF a]] b c] a b c show ?thesis
    by (simp add: example_hunk_def)
qed


subsection \<open>The path of a file\<close>

lemma diff_loop_append:
  "diff_loop st (xs @ ys) =
     (case diff_loop st xs of Inl e \<Rightarrow> Inl e | Inr st' \<Rightarrow> diff_loop st' ys)"
  by (induction xs arbitrary: st) (auto split: sum.splits)

lemma close_hunk_None [simp]: "(close_hunk cf ch = None) = (cf = None)"
  by (auto simp: close_hunk_def split: option.splits)

lemma close_hunk_path:
  "close_hunk (Some f) ch = Some f' \<Longrightarrow> file_path f' = file_path f"
  by (auto simp: close_hunk_def split: option.splits)

lemma length_close_file: "length (close_file fs cf) = length fs + (if cf = None then 0 else 1)"
  by (auto simp: close_file_def split: option.splits)

lemma nfiles_step:
  "diff_step st line = Inr st' \<Longrightarrow>
     nfiles st' = nfiles st + (if is_diff_line line then 1 else 0)"
  by (cases st)
     (auto simp: diff_step_def nfiles_def is_diff_line_def length_close_file
        split: if_splits sum.splits)

lemma nfiles_loop:
  "diff_loop st ls = Inr st' \<Longrightarrow> nfiles st' = nfiles st + length (filter is_diff_line ls)"
proof (induction ls arbitrary: st)
  case Nil
  then show ?case by simp
next
  case (Cons line ls)
  from Cons.prems obtain st1 where s: "diff_step st line = Inr st1"
    and l: "diff_loop st1 ls = Inr st'"
    by (auto split: sum.splits)
  from nfiles_step [OF s] Cons.IH [OF l] show ?case
    by simp
qed

lemma files_step:
  "diff_step (fs, cf, ch) line = Inr (fs', cf', ch') \<Longrightarrow> \<exists>zs. fs' = fs @ zs"
  by (auto simp: diff_step_def close_file_def split: if_splits sum.splits option.splits)

lemma files_loop:
  "diff_loop (fs, cf, ch) ls = Inr (fs', cf', ch') \<Longrightarrow> \<exists>zs. fs' = fs @ zs"
proof (induction ls arbitrary: fs cf ch)
  case Nil
  then show ?case by simp
next
  case (Cons line ls)
  from Cons.prems obtain fs1 cf1 ch1 where s: "diff_step (fs, cf, ch) line = Inr (fs1, cf1, ch1)"
    and l: "diff_loop (fs1, cf1, ch1) ls = Inr (fs', cf', ch')"
    by (auto split: sum.splits)
  from files_step [OF s] Cons.IH [OF l] show ?case
    by auto
qed

lemma files_finish: "\<exists>zs. diff_finish (fs, cf, ch) = fs @ zs"
  by (auto simp: diff_finish_def close_file_def split: option.splits)

lemma startswith_shorter: "startswith s (p @ q) \<Longrightarrow> startswith s p"
proof -
  assume "startswith s (p @ q)"
  then have "take (length p) (take (length (p @ q)) s) = take (length p) (p @ q)"
    by (simp only: startswith_def)
  then show ?thesis
    by (simp add: startswith_def min_def)
qed

lemma startswith_first: "startswith s (a # p) \<Longrightarrow> startswith s (b # q) \<Longrightarrow> a = b"
  by (cases s) (auto simp: startswith_def)

lemma marker_branch:
  assumes "is_marker line"
  shows "\<not> startswith line ''diff --git''" and "\<not> startswith line ''new file mode''"
    and "\<not> startswith line ''deleted file mode''"
    and "startswith line ''--- '' \<or> startswith line ''+++ ''"
proof -
  have "startswith line ''+++ b/'' \<Longrightarrow> startswith line ''+++ ''"
    using startswith_shorter [of line "''+++ ''" "''b/''"] by simp
  moreover have "startswith line ''--- a/'' \<Longrightarrow> startswith line ''--- ''"
    using startswith_shorter [of line "''--- ''" "''a/''"] by simp
  ultimately show "startswith line ''--- '' \<or> startswith line ''+++ ''"
    using assms by (auto simp: is_marker_def)
  then show "\<not> startswith line ''diff --git''" and "\<not> startswith line ''new file mode''"
    and "\<not> startswith line ''deleted file mode''"
    by (auto dest: startswith_first)
qed

lemma first_path_Cons:
  "first_path (line # sec) =
     (if is_marker line \<and> drop 6 line \<noteq> [] then drop 6 line else first_path sec)"
  by (simp add: first_path_def)

lemma section_step:
  assumes "\<not> is_diff_line line" and "diff_step (fs, Some f, ch) line = Inr (fs', cf', ch')"
  shows "fs' = fs \<and> (\<exists>f'. cf' = Some f' \<and>
           file_path f' = (if file_path f = [] \<and> is_marker line then drop 6 line
                           else file_path f))"
proof (cases "is_marker line")
  case True
  note m = marker_branch [OF True]
  from assms(2) m have "fs' = fs" "cf' = Some (set_path f line)"
    by (auto simp: diff_step_def split: if_splits)
  moreover have "file_path (set_path f line) = (if file_path f = [] then drop 6 line else file_path f)"
    using True by (auto simp: set_path_def is_marker_def)
  ultimately show ?thesis
    using True by simp
next
  case False
  have "file_path (set_path f line) = file_path f"
    using False by (simp add: set_path_def is_marker_def)
  with assms show ?thesis
    using False
    by (auto simp: diff_step_def is_diff_line_def close_hunk_def
        split: if_splits sum.splits option.splits)
qed

lemma section_loop:
  assumes "list_all (\<lambda>line. \<not> is_diff_line line) sec"
    and "diff_loop (fs, Some f, ch) sec = Inr (fs', cf', ch')"
  shows "fs' = fs \<and> (\<exists>f'. cf' = Some f' \<and>
           file_path f' = (if file_path f = [] then first_path sec else file_path f))"
  using assms
proof (induction sec arbitrary: f ch)
  case Nil
  then show ?case by (auto simp: first_path_def)
next
  case (Cons line sec)
  from Cons.prems have nd: "\<not> is_diff_line line" and rest: "list_all (\<lambda>line. \<not> is_diff_line line) sec"
    by simp_all
  from Cons.prems(2) obtain fs1 cf1 ch1 where s: "diff_step (fs, Some f, ch) line = Inr (fs1, cf1, ch1)"
    and l: "diff_loop (fs1, cf1, ch1) sec = Inr (fs', cf', ch')"
    by (auto split: sum.splits)
  from section_step [OF nd s] obtain f1 where fs1: "fs1 = fs" and cf1: "cf1 = Some f1"
    and p1: "file_path f1 = (if file_path f = [] \<and> is_marker line then drop 6 line else file_path f)"
    by auto
  from Cons.IH [OF rest, of f1 ch1] l fs1 cf1 obtain f' where "fs' = fs" "cf' = Some f'"
    and p': "file_path f' = (if file_path f1 = [] then first_path sec else file_path f1)"
    by auto
  then show ?case
    using p1 by (auto simp: first_path_Cons)
qed


lemma diff_line_step:
  "is_diff_line d \<Longrightarrow>
     diff_step (fs, cf, ch) d =
       Inr (close_file fs (close_hunk cf ch),
            Some \<lparr>file_path = [], change_type = ''modified'', hunks = []\<rparr>, None)"
  by (simp add: diff_step_def is_diff_line_def)

lemma close_open_file:
  "\<exists>f'. close_file fs (close_hunk (Some f) ch) = fs @ [f'] \<and> file_path f' = file_path f"
  by (auto simp: close_file_def close_hunk_def split: option.splits)

lemma nth_after_prefix: "xs = (ys @ [y]) @ zs \<Longrightarrow> length ys < length xs \<and> xs ! length ys = y"
  by (simp add: nth_append)

text \<open>
  Claim C5, amended.  Let a section be the lines \<open>sec\<close> between a \<open>diff --git\<close> line
  and the next one, or the end of the text.  Whenever the parse succeeds, the path stored
  for that file is the text after the six-character prefix of the first line of the
  section that starts with \<open>+++ b/\<close> or \<open>--- a/\<close> and has text after the prefix; later
  marker lines do not change it, and it is empty when the section has no such line.
  The file's position in the result is the number of \<open>diff --git\<close> lines before it.
\<close>

theorem path_from_first_marker:
  "parse_diff_lines (pre @ d # sec @ post) = Inr fs \<Longrightarrow> is_diff_line d \<Longrightarrow>
   list_all (\<lambda>line. \<not> is_diff_line line) sec \<Longrightarrow>
   (case post of [] \<Rightarrow> True | p # ps \<Rightarrow> is_diff_line p) \<Longrightarrow>
   length (filter is_diff_line pre) < length fs
   \<and> file_path (fs ! length (filter is_diff_line pre)) = first_path sec"
proof -
  assume parse: "parse_diff_lines (pre @ d # sec @ post) = Inr fs" and d: "is_diff_line d"
    and sec: "list_all (\<lambda>line. \<not> is_diff_line line) sec"
    and post: "case post of [] \<Rightarrow> True | p # ps \<Rightarrow> is_diff_line p"
  let ?k = "length (filter is_diff_line pre)"
  from parse obtain st where loop: "diff_loop ([], None, None) (pre @ d # sec @ post) = Inr st"
    and fs: "fs = diff_finish st"
    by (auto simp: parse_diff_lines_def split: sum.splits)
  from loop obtain st0 where l0: "diff_loop ([], None, None) pre = Inr st0"
    and l1: "diff_loop st0 (d # sec @ post) = Inr st"
    by (auto simp: diff_loop_append split: sum.splits)
  obtain fs0 cf0 ch0 where st0: "st0 = (fs0, cf0, ch0)"
    by (cases st0)
  define fs1 where "fs1 = close_file fs0 (close_hunk cf0 ch0)"
  define new where "new = \<lparr>file_path = [], change_type = ''modified'', hunks = ([] :: DiffHunk list)\<rparr>"
  have k: "length fs1 = ?k"
    using nfiles_loop [OF l0] by (simp add: fs1_def nfiles_def st0 length_close_file)
  from l1 have l2: "diff_loop (fs1, Some new, None) (sec @ post) = Inr st"
    by (simp add: st0 diff_line_step [OF d] fs1_def new_def)
  then obtain st2 where l3: "diff_loop (fs1, Some new, None) sec = Inr st2"
    and l4: "diff_loop st2 post = Inr st"
    by (auto simp: diff_loop_append split: sum.splits)
  obtain fs2 cf2 ch2 where st2: "st2 = (fs2, cf2, ch2)"
    by (cases st2)
  from section_loop [OF sec, of fs1 new None fs2 cf2 ch2] l3 st2
  obtain f2 where fs2: "fs2 = fs1" and cf2: "cf2 = Some f2" and p2: "file_path f2 = first_path sec"
    by (auto simp: new_def)
  from close_open_file [of fs1 f2 ch2] obtain f3 where
    cl: "close_file fs1 (close_hunk (Some f2) ch2) = fs1 @ [f3]" and p3: "file_path f3 = first_path sec"
    using p2 by auto
  have "\<exists>zs. fs = (fs1 @ [f3]) @ zs"
  proof (cases post)
    case Nil
    with l4 have "st = (fs1, Some f2, ch2)"
      by (simp add: st2 fs2 cf2)
    then show ?thesis
      by (simp add: fs diff_finish_def cl)
  next
    case (Cons p ps)
    with post have p: "is_diff_line p"
      by simp
    from l4 Cons have l5: "diff_loop (fs1 @ [f3], Some new, None) ps = Inr st"
      by (simp add: st2 fs2 cf2 diff_line_step [OF p] cl new_def)
    obtain fs4 cf4 ch4 where st: "st = (fs4, cf4, ch4)"
      by (cases st)
    from files_loop [of "fs1 @ [f3]" "Some new" None ps fs4 cf4 ch4] l5 st
    obtain m1 where "fs4 = (fs1 @ [f3]) @ m1"
      by auto
    moreover from files_finish [of fs4 cf4 ch4] obtain m2 where "fs = fs4 @ m2"
      by (auto simp: fs st)
    ultimately show ?thesis
      by auto
  qed
  then obtain zs where "fs = (fs1 @ [f3]) @ zs"
    by blast
  from nth_after_prefix [OF this] show ?thesis
    by (simp add: k p3)
qed

text \<open>
  Claim C5, as stated, fails.  The section of a renamed file has the marker line
  \<open>--- a/old.txt\<close> and then the marker line \<open>+++ b/new.txt\<close>; the path stored is
  \<open>old.txt\<close>, from the line seen first, not the one of the \<open>+++ b/\<close> line.
\<close>

theorem path_prefers_first_marker_counterexample:
  "parse_unified_diff (''diff --git a/old.txt b/new.txt'' @ [CHR 0x0A] @ ''--- a/old.txt''
        @ [CHR 0x0A] @ ''+++ b/new.txt'' @ [CHR 0x0A])
     = Inr [\<lparr>file_path = ''old.txt'', change_type = ''modified'', hunks = []\<rparr>]"
  by code_simp

theorem path_from_first_marker_witness:
  "parse_diff_lines ([''diff --git a/x b/x'', ''--- a/x'', ''+++ b/x'']
       @ ''diff --git a/old.txt b/new.txt''
       # [''similarity index 90%'', ''--- a/'', ''+++ b/new.txt'', ''--- a/old.txt'']
       @ [''diff --git a/z b/z''])
     = Inr [\<lparr>file_path = ''x'', change_type = ''modified'', hunks = []\<rparr>,
            \<lparr>file_path = ''new.txt'', change_type = ''modified'', hunks = []\<rparr>,
            \<lparr>file_path = [], change_type = ''modified'', hunks = []\<rparr>]
   \<and> is_diff_line ''diff --git a/old.txt b/new.txt''
   \<and> list_all (\<lambda>line. \<not> is_diff_line line)
        [''similarity index 90%'', ''--- a/'', ''+++ b/new.txt'', ''--- a/old.txt'']
   \<and> is_diff_line ''diff --git a/z b/z''
   \<and> first_path [''similarity index 90%'', ''--- a/'', ''+++ b/new.txt'', ''--- a/old.txt'']
       = ''new.txt''"
proof -
  have a: "parse_diff_lines ([''diff --git a/x b/x'', ''--- a/x'', ''+++ b/x'']
       @ ''diff --git a/old.txt b/new.txt''
       # [''similarity index 90%'', ''--- a/'', ''+++ b/new.txt'', ''--- a/old.txt'']
       @ [''diff --git a/z b/z''])
     = Inr [\<lparr>file_path = ''x'', change_type = ''modified'', hunks = []\<rparr>,
            \<lparr>file_path = ''new.txt'', change_type = ''modified'', hunks = []\<rparr>,
            \<lparr>file_path = [], change_type = ''modified'', hunks = []\<rparr>]"
    by code_simp
  have b: "is_diff_line ''diff --git a/old.txt b/new.txt''"
    by code_simp
  have c: "list_all (\<lambda>line. \<not> is_diff_line line)
        [''similarity index 90%'', ''--- a/'', ''+++ b/new.txt'', ''--- a/old.txt'']"
    by code_simp
  have d: "case [''diff --git a/z b/z''] of [] \<Rightarrow> True | p # ps \<Rightarrow> is_diff_line p"
    by code_simp
  have k: "length (filter is_diff_line [''diff --git a/x b/x'', ''--- a/x'', ''+++ b/x'']) = 1"
    by code_simp
  from path_from_first_marker [OF a b c d]
  have "first_path [''similarity index 90%'', ''--- a/'', ''+++ b/new.txt'', ''--- a/old.txt'']
      = ''new.txt''"
    unfolding k by simp
  with a b c d show ?thesis
    by simp
qed

text \<open>
  The parse of a line never fails: a name that starts with \<open>remotes/\<close> has a second
  segment.  A line with the prefix \<open>* \<close> gives a current branch, named by what follows
  the prefix.
\<close>

lemma split_aux_char_length:
  "length (split_aux [c] 0 cur s) = Suc (length (filter (\<lambda>x. x = c) s))"
  by (induction s arbitrary: cur) (auto simp: startswith_def)

lemma remotes_has_slash:
  assumes "startswith s ''remotes/''"
  shows "CHR ''/'' \<in> set s"
proof -
  from startswith_split [OF assms] obtain t where "s = ''remotes/'' @ t"
    by blast
  then show ?thesis
    by simp
qed

lemma remote_index_ok:
  "startswith s ''remotes/'' \<Longrightarrow> \<exists>v. py_index (split_sep s ''/'') 1 = Inr v"
proof -
  assume "startswith s ''remotes/''"
  then have "filter (\<lambda>x. x = CHR ''/'') s \<noteq> []"
    using remotes_has_slash [of s] by (simp add: filter_empty_conv)
  then have "1 < length (split_sep s ''/'')"
    by (simp add: split_sep_def split_aux_char_length)
  then show ?thesis
    by (simp add: py_index_def)
qed

lemma parse_branch_line_total: "\<exists>b. parse_branch_line raw = Inr b"
  using remote_index_ok
  by (fastforce simp: parse_branch_line_def Let_def split: option.splits sum.splits)

lemma branch_line_prefix_stripped:
  assumes "startswith (strip raw) ''* ''" and "parse_branch_line raw = Inr b"
  shows "is_current b
    \<and> name b = removeprefix
                 (case partition_at ''->'' (strip (drop 2 (strip raw))) of
                    Some (a, t) \<Rightarrow> strip a
                  | None \<Rightarrow> strip (drop 2 (strip raw)))
                 ''remotes/''"
proof -
  have "startswith (strip raw) ''*''"
    using assms(1) by (cases "strip raw") (auto simp: startswith_def)
  with assms(2) show ?thesis
    by (auto simp: parse_branch_line_def Let_def split: option.splits sum.splits if_splits)
qed

end
